theory Spec2Isabelle
  imports Complex_Main
begin

section \<open>Tensors\<close>

text \<open>
  A tensor is its shape (a Python tuple of dimension sizes) and its elements in row-major
  order. The elements are \<open>float32\<close> in the program; they are real numbers here, so the
  rounding of each arithmetic operation is not part of the model.
\<close>

record tensor =
  shape :: "nat list"
  data :: "real list"

definition well_formed :: "tensor \<Rightarrow> bool" where
  "well_formed t = (length (data t) = prod_list (shape t))"

text \<open>\<^verbatim>\<open>np.full(shape, fill_value, dtype=np.float32)\<close>\<close>

definition full :: "nat list \<Rightarrow> real \<Rightarrow> tensor" where
  "full s v = \<lparr>shape = s, data = replicate (prod_list s) v\<rparr>"

text \<open>The array that a flat Python list of numbers denotes, as in \<^verbatim>\<open>Parameter(data=[init])\<close>.\<close>

definition array :: "real list \<Rightarrow> tensor" where
  "array xs = \<lparr>shape = [length xs], data = xs\<rparr>"

text \<open>\<^verbatim>\<open>Parameter(data=...)\<close> marks a tensor as trainable; it keeps shape and elements.\<close>

definition Parameter :: "tensor \<Rightarrow> tensor" where
  "Parameter t = t"

section \<open>Errors\<close>

text \<open>
  \<open>AssertionError\<close> and \<open>IndexError\<close> are the two exceptions that the code of
  \<^verbatim>\<open>activation.py\<close> raises itself; \<open>OperatorError\<close> stands for whatever a delegated
  operator raises.
\<close>

datatype error = AssertionError string | IndexError string | OperatorError string

text \<open>Indexing a tuple with a non-negative index, as in \<^verbatim>\<open>inputs.shape[1]\<close>.\<close>

definition tuple_getitem :: "nat list \<Rightarrow> nat \<Rightarrow> error + nat" where
  "tuple_getitem s i =
     (if i < length s then Inr (s ! i) else Inl (IndexError ''tuple index out of range''))"

section \<open>The activation layers\<close>

text \<open>
  The eight classes derived from \<^verbatim>\<open>Module\<close>, each with the attributes that its
  \<^verbatim>\<open>__init__\<close> assigns.
\<close>

datatype Module =
    Softmax (axis: "nat option")
  | Sigmoid
  | SiLU
  | GELU
  | ReLU
  | PReLU (num_parameters: int) (weight: tensor)
  | LeakyReLU (negative_slope: real)
  | ELU (alpha: real)

definition Softmax_init :: "nat option \<Rightarrow> Module" where
  "Softmax_init ax = Softmax ax"

definition PReLU_init :: "int \<Rightarrow> real \<Rightarrow> Module" where
  "PReLU_init n init =
     PReLU n (if n > 1 then Parameter (full [1, nat n, 1, 1] init)
              else Parameter (array [init]))"

definition LeakyReLU_init :: "real \<Rightarrow> Module" where
  "LeakyReLU_init slope = LeakyReLU slope"

definition ELU_init :: "real \<Rightarrow> Module" where
  "ELU_init a = ELU a"

section \<open>The operators of \<^verbatim>\<open>megengine.functional\<close>\<close>

text \<open>
  \<^verbatim>\<open>activation.py\<close> imports its eight operators and defines none of them: a layer
  receives them as the record \<open>functional\<close>. Python hands tensors over by reference, so
  an operator is able to write to its arguments. Each field therefore returns, next to
  the result of the call, the argument tensors as the call leaves them.
\<close>

record functional =
  softmax :: "tensor \<Rightarrow> nat option \<Rightarrow> (error + tensor) \<times> tensor"
  sigmoid :: "tensor \<Rightarrow> (error + tensor) \<times> tensor"
  silu :: "tensor \<Rightarrow> (error + tensor) \<times> tensor"
  gelu :: "tensor \<Rightarrow> (error + tensor) \<times> tensor"
  relu :: "tensor \<Rightarrow> (error + tensor) \<times> tensor"
  prelu :: "tensor \<Rightarrow> tensor \<Rightarrow> (error + tensor) \<times> tensor \<times> tensor"
  leaky_relu :: "tensor \<Rightarrow> real \<Rightarrow> (error + tensor) \<times> tensor"
  elu :: "tensor \<Rightarrow> real \<Rightarrow> (error + tensor) \<times> tensor"

text \<open>
  Modelled from the spec: the operators of \<^verbatim>\<open>megengine.functional\<close>, which are not part
  of the sources at hand, are functional: a call writes to none of its arguments.
\<close>

definition no_write :: "functional \<Rightarrow> bool" where
  "no_write F =
     ((\<forall>x ax. snd (softmax F x ax) = x) \<and> (\<forall>x. snd (sigmoid F x) = x)
      \<and> (\<forall>x. snd (silu F x) = x) \<and> (\<forall>x. snd (gelu F x) = x)
      \<and> (\<forall>x. snd (relu F x) = x) \<and> (\<forall>x w. snd (prelu F x w) = (x, w))
      \<and> (\<forall>x s. snd (leaky_relu F x s) = x) \<and> (\<forall>x a. snd (elu F x a) = x))"

section \<open>The forward methods\<close>

text \<open>
  The \<^verbatim>\<open>assert\<close> statement of \<^verbatim>\<open>PReLU.forward\<close>. Python's \<^verbatim>\<open>or\<close> evaluates its
  second operand only when the first is false, and that operand reads
  \<^verbatim>\<open>inputs.shape[1]\<close>, which raises for a shape with fewer than two entries.
\<close>

definition assert_weight_shape :: "tensor \<Rightarrow> tensor \<Rightarrow> error + unit" where
  "assert_weight_shape w inputs =
     (if shape w = [1] then Inr ()
      else case tuple_getitem (shape inputs) 1 of
             Inl e \<Rightarrow> Inl e
           | Inr c \<Rightarrow>
               if shape w = [1, c, 1, 1] then Inr ()
               else Inl (AssertionError ''invalid weight's shape''))"

text \<open>
  \<open>forward F m inputs\<close> is the call \<^verbatim>\<open>m.forward(inputs)\<close>. It returns the result of the
  call, then the layer and the input tensor as they are when the call ends.
\<close>

fun forward :: "functional \<Rightarrow> Module \<Rightarrow> tensor \<Rightarrow> (error + tensor) \<times> Module \<times> tensor" where
  "forward F (Softmax ax) inputs =
     (case softmax F inputs ax of (r, inputs') \<Rightarrow> (r, Softmax ax, inputs'))"
| "forward F Sigmoid inputs =
     (case sigmoid F inputs of (r, inputs') \<Rightarrow> (r, Sigmoid, inputs'))"
| "forward F SiLU inputs =
     (case silu F inputs of (r, inputs') \<Rightarrow> (r, SiLU, inputs'))"
| "forward F GELU inputs =
     (case gelu F inputs of (r, inputs') \<Rightarrow> (r, GELU, inputs'))"
| "forward F ReLU inputs =
     (case relu F inputs of (r, inputs') \<Rightarrow> (r, ReLU, inputs'))"
| "forward F (PReLU n w) inputs =
     (case assert_weight_shape w inputs of
        Inl e \<Rightarrow> (Inl e, PReLU n w, inputs)
      | Inr _ \<Rightarrow>
          (case prelu F inputs w of (r, inputs', w') \<Rightarrow> (r, PReLU n w', inputs')))"
| "forward F (LeakyReLU s) inputs =
     (case leaky_relu F inputs s of (r, inputs') \<Rightarrow> (r, LeakyReLU s, inputs'))"
| "forward F (ELU a) inputs =
     (case elu F inputs a of (r, inputs') \<Rightarrow> (r, ELU a, inputs'))"

text \<open>
  The legal forms of the weight's shape for an input's shape, in the words of the
  specification: \<open>(1,)\<close>, or \<open>(1, C, 1, 1)\<close> where \<open>C\<close> is the size of the input's
  dimension 1.
\<close>

definition legal_weight_shape :: "nat list \<Rightarrow> nat list \<Rightarrow> bool" where
  "legal_weight_shape ws xs = (ws = [1] \<or> (1 < length xs \<and> ws = [1, xs ! 1, 1, 1]))"

section \<open>The operators, from their documentation\<close>

definition elementwise :: "(real \<Rightarrow> real) \<Rightarrow> tensor \<Rightarrow> tensor" where
  "elementwise f x = x\<lparr>data := map f (data x)\<rparr>"

text \<open>
  Row-major layout. For a shape whose reduced axis has size \<open>n\<close> and whose later axes
  hold \<open>inner\<close> elements together, \<open>slice_index n inner i j\<close> is the position that
  differs from position \<open>i\<close> only in the coordinate of the reduced axis, which is \<open>j\<close>.
  \<open>along_axis s k i\<close> lists the positions of the slice along axis \<open>k\<close> through \<open>i\<close>.
\<close>

definition slice_index :: "nat \<Rightarrow> nat \<Rightarrow> nat \<Rightarrow> nat \<Rightarrow> nat" where
  "slice_index n inner i j = (i div (n * inner)) * (n * inner) + j * inner + i mod inner"

definition along_axis :: "nat list \<Rightarrow> nat \<Rightarrow> nat \<Rightarrow> nat list" where
  "along_axis s k i = map (slice_index (s ! k) (prod_list (drop (Suc k) s)) i) [0..<s ! k]"

text \<open>
  Modelled from the spec: the operator \<^verbatim>\<open>softmax\<close> of \<^verbatim>\<open>megengine.functional\<close>, which is
  not part of the sources at hand. Each element becomes
  \<open>exp x\<^sub>i / (\<Sum>\<^sub>j exp x\<^sub>j)\<close>, the sum ranging over the slice along the axis; without
  an axis the last one is taken; an axis that the input does not have is the operator's
  error.
\<close>

definition spec_softmax :: "tensor \<Rightarrow> nat option \<Rightarrow> error + tensor" where
  "spec_softmax x ax =
     (let k = (case ax of None \<Rightarrow> length (shape x) - 1 | Some k \<Rightarrow> k) in
      if k < length (shape x)
      then Inr (x\<lparr>data :=
             map (\<lambda>i. exp (data x ! i) / (\<Sum>j\<leftarrow>along_axis (shape x) k i. exp (data x ! j)))
               [0..<length (data x)]\<rparr>)
      else Inl (OperatorError ''softmax: invalid axis''))"

text \<open>
  Modelled from the spec: the element-wise operators \<^verbatim>\<open>sigmoid\<close>, \<^verbatim>\<open>silu\<close>, \<^verbatim>\<open>gelu\<close>,
  \<^verbatim>\<open>relu\<close>, \<^verbatim>\<open>leaky_relu\<close> and \<^verbatim>\<open>elu\<close> of \<^verbatim>\<open>megengine.functional\<close>, which are not part
  of the sources at hand, by the formulas in the documentation of their layers.
  \<open>Phi\<close> is the distribution function of the standard normal distribution, through the
  power series of the error function.
\<close>

definition erf :: "real \<Rightarrow> real" where
  "erf x = 2 / sqrt pi * (\<Sum>n. (- 1) ^ n * x ^ (2 * n + 1) / (fact n * real (2 * n + 1)))"

definition Phi :: "real \<Rightarrow> real" where
  "Phi x = (1 + erf (x / sqrt 2)) / 2"

definition spec_sigmoid :: "tensor \<Rightarrow> error + tensor" where
  "spec_sigmoid x = Inr (elementwise (\<lambda>v. 1 / (1 + exp (- v))) x)"

definition spec_silu :: "tensor \<Rightarrow> error + tensor" where
  "spec_silu x = Inr (elementwise (\<lambda>v. v / (1 + exp (- v))) x)"

definition spec_gelu :: "tensor \<Rightarrow> error + tensor" where
  "spec_gelu x = Inr (elementwise (\<lambda>v. v * Phi v) x)"

definition spec_relu :: "tensor \<Rightarrow> error + tensor" where
  "spec_relu x = Inr (elementwise (\<lambda>v. max v 0) x)"

definition spec_leaky_relu :: "tensor \<Rightarrow> real \<Rightarrow> error + tensor" where
  "spec_leaky_relu x slope = Inr (elementwise (\<lambda>v. max 0 v + slope * min 0 v) x)"

definition spec_elu :: "tensor \<Rightarrow> real \<Rightarrow> error + tensor" where
  "spec_elu x a = Inr (elementwise (\<lambda>v. if v > 0 then v else a * (exp v - 1)) x)"

text \<open>
  Modelled from the spec: the operator \<^verbatim>\<open>prelu\<close> of \<^verbatim>\<open>megengine.functional\<close>, which is
  not part of the sources at hand: \<open>max(0, x) + a * min(0, x)\<close>, where \<open>a\<close> is the one
  element of a weight of shape \<open>(1,)\<close>, or the element of the input's channel for a
  weight of shape \<open>(1, C, 1, 1)\<close> and an input in the layout NCHW. The specification
  describes no other combination of shapes; they are the operator's error here.
\<close>

definition spec_prelu :: "tensor \<Rightarrow> tensor \<Rightarrow> error + tensor" where
  "spec_prelu x w =
     (if shape w = [1]
      then Inr (elementwise (\<lambda>v. max 0 v + data w ! 0 * min 0 v) x)
      else if length (shape x) = 4 \<and> shape w = [1, shape x ! 1, 1, 1]
      then Inr (x\<lparr>data :=
             map (\<lambda>i. max 0 (data x ! i)
                      + data w ! (i div (shape x ! 2 * shape x ! 3) mod shape x ! 1)
                        * min 0 (data x ! i))
               [0..<length (data x)]\<rparr>)
      else Inl (OperatorError ''prelu: shapes outside the specification''))"

text \<open>The operators above as a record: none of them writes to an argument.\<close>

definition spec_functional :: functional where
  "spec_functional =
     \<lparr>softmax = (\<lambda>x ax. (spec_softmax x ax, x)),
      sigmoid = (\<lambda>x. (spec_sigmoid x, x)),
      silu = (\<lambda>x. (spec_silu x, x)),
      gelu = (\<lambda>x. (spec_gelu x, x)),
      relu = (\<lambda>x. (spec_relu x, x)),
      prelu = (\<lambda>x w. (spec_prelu x w, x, w)),
      leaky_relu = (\<lambda>x s. (spec_leaky_relu x s, x)),
      elu = (\<lambda>x a. (spec_elu x a, x))\<rparr>"

text \<open>The denominator of the softmax at position \<open>i\<close>, as a sum over the axis.\<close>

definition slice_sum :: "nat \<Rightarrow> nat \<Rightarrow> real list \<Rightarrow> nat \<Rightarrow> real" where
  "slice_sum n inner xs i = (\<Sum>j<n. exp (xs ! slice_index n inner i j))"

section \<open>Construction of PReLU\<close>

text \<open>
  C2. For every \<open>num_parameters \<ge> 1\<close> and every \<open>init\<close>, the constructor stores
  \<open>num_parameters\<close> and allocates a weight whose elements all equal \<open>init\<close>, of shape
  \<open>(1,)\<close> when \<open>num_parameters = 1\<close> and \<open>(1, num_parameters, 1, 1)\<close> otherwise; the
  number of elements is the one the shape asks for.
\<close>

theorem PReLU_init_weight:
  assumes "1 \<le> n"
  shows "num_parameters (PReLU_init n init) = n
       \<and> shape (weight (PReLU_init n init)) = (if n = 1 then [1] else [1, nat n, 1, 1])
       \<and> data (weight (PReLU_init n init)) = replicate (nat n) init
       \<and> well_formed (weight (PReLU_init n init))"
  using assms
  by (simp add: PReLU_init_def Parameter_def full_def array_def well_formed_def)

theorem PReLU_init_weight_witness:
  "(1::int) \<le> 3
   \<and> num_parameters (PReLU_init 3 (1/4)) = 3
   \<and> shape (weight (PReLU_init 3 (1/4))) = [1, 3, 1, 1]
   \<and> data (weight (PReLU_init 3 (1/4))) = [1/4, 1/4, 1/4]
   \<and> well_formed (weight (PReLU_init 3 (1/4)))"
  using PReLU_init_weight [of 3 "1/4"]
  by (simp add: numeral_3_eq_3)

text \<open>
  C10. For every \<open>num_parameters \<le> 0\<close> the constructor takes the branch of
  \<open>num_parameters = 1\<close>: it stores the number it was given and allocates the weight of
  shape \<open>(1,)\<close> holding \<open>init\<close>, the same weight as for \<open>num_parameters = 1\<close>.
\<close>

theorem PReLU_init_nonpositive:
  assumes "n \<le> 0"
  shows "num_parameters (PReLU_init n init) = n
       \<and> weight (PReLU_init n init) = \<lparr>shape = [1], data = [init]\<rparr>
       \<and> weight (PReLU_init n init) = weight (PReLU_init 1 init)"
  using assms
  by (simp add: PReLU_init_def Parameter_def array_def)

theorem PReLU_init_nonpositive_witness:
  "(-2::int) \<le> 0
   \<and> num_parameters (PReLU_init (-2) (1/4)) = -2
   \<and> weight (PReLU_init (-2) (1/4)) = \<lparr>shape = [1], data = [1/4]\<rparr>
   \<and> weight (PReLU_init (-2) (1/4)) = weight (PReLU_init 1 (1/4))"
proof -
  have h: "(-2::int) \<le> 0" by simp
  from PReLU_init_nonpositive [OF h, of "1/4"] h show ?thesis by blast
qed

section \<open>The shape assertion of PReLU\<close>

text \<open>The three outcomes of the assertion.\<close>

lemma assert_weight_shape_cases:
  "assert_weight_shape w x =
     (if legal_weight_shape (shape w) (shape x) then Inr ()
      else if 1 < length (shape x) then Inl (AssertionError ''invalid weight's shape'')
      else Inl (IndexError ''tuple index out of range''))"
  by (simp add: assert_weight_shape_def legal_weight_shape_def tuple_getitem_def)

lemma forward_PReLU_illegal:
  "\<not> legal_weight_shape (shape w) (shape x) \<Longrightarrow>
   forward F (PReLU n w) x =
     (Inl (if 1 < length (shape x) then AssertionError ''invalid weight's shape''
           else IndexError ''tuple index out of range''), PReLU n w, x)"
  by (simp add: assert_weight_shape_cases)

text \<open>
  C1. With a legal shape of the weight, \<open>(1,)\<close> or \<open>(1, C, 1, 1)\<close> for the size \<open>C\<close> of the
  input's dimension 1, the call returns what \<^verbatim>\<open>prelu(inputs, weight)\<close> returns. For an
  input that has a dimension 1, the call fails with the assertion error, before any
  operator is invoked, if and only if the shape of the weight is not legal: whatever the
  operators are, and whatever they would write, the result is that error and layer and
  input are as they were. For an input without a dimension 1 and a weight whose shape is
  not \<open>(1,)\<close> the code does not reach the failure of the assertion: reading
  \<^verbatim>\<open>inputs.shape[1]\<close> raises the index error first, again before any operator is invoked.
\<close>

theorem PReLU_forward_assertion_iff:
  "(legal_weight_shape (shape w) (shape x) \<longrightarrow>
      (\<forall>F. fst (forward F (PReLU n w) x) = fst (prelu F x w)))
   \<and> (1 < length (shape x) \<longrightarrow>
      ((\<forall>F. forward F (PReLU n w) x
             = (Inl (AssertionError ''invalid weight's shape''), PReLU n w, x))
       \<longleftrightarrow> \<not> legal_weight_shape (shape w) (shape x)))
   \<and> (length (shape x) < 2 \<and> shape w \<noteq> [1] \<longrightarrow>
      (\<forall>F. forward F (PReLU n w) x
            = (Inl (IndexError ''tuple index out of range''), PReLU n w, x)))"
proof -
  have ok: "fst (forward F (PReLU n w) x) = fst (prelu F x w)"
    if "legal_weight_shape (shape w) (shape x)" for F
    using that by (cases "prelu F x w") (simp add: assert_weight_shape_cases)
  have bad: "forward F (PReLU n w) x
             = (Inl (AssertionError ''invalid weight's shape''), PReLU n w, x)"
    if "1 < length (shape x)" and "\<not> legal_weight_shape (shape w) (shape x)" for F
    using that by (simp add: forward_PReLU_illegal del: forward.simps)
  have conv: "\<not> legal_weight_shape (shape w) (shape x)"
    if h: "\<forall>F. forward F (PReLU n w) x
               = (Inl (AssertionError ''invalid weight's shape''), PReLU n w, x)"
  proof
    assume l: "legal_weight_shape (shape w) (shape x)"
    let ?F = "spec_functional\<lparr>prelu := \<lambda>a b. (Inr a, a, b)\<rparr>"
    from h have "fst (forward ?F (PReLU n w) x) = Inl (AssertionError ''invalid weight's shape'')"
      by simp
    with ok [OF l, of ?F] show False by simp
  qed
  have idx: "forward F (PReLU n w) x
             = (Inl (IndexError ''tuple index out of range''), PReLU n w, x)"
    if "length (shape x) < 2" and "shape w \<noteq> [1]" for F
  proof -
    from that have "\<not> legal_weight_shape (shape w) (shape x)"
      by (simp add: legal_weight_shape_def)
    with that(1) show ?thesis
      by (simp add: forward_PReLU_illegal del: forward.simps)
  qed
  from ok bad conv idx show ?thesis by blast
qed

theorem PReLU_forward_assertion_iff_witness:
  "legal_weight_shape (shape (full [1, 3, 1, 1] 0.25)) (shape (full [2, 3, 1, 1] 1))
   \<and> (\<forall>F. fst (forward F (PReLU_init 3 0.25) (full [2, 3, 1, 1] 1))
           = fst (prelu F (full [2, 3, 1, 1] 1) (full [1, 3, 1, 1] 0.25)))
   \<and> 1 < length (shape (full [2, 4, 1, 1] 1))
   \<and> \<not> legal_weight_shape (shape (full [1, 3, 1, 1] 0.25)) (shape (full [2, 4, 1, 1] 1))
   \<and> (\<forall>F. forward F (PReLU_init 3 0.25) (full [2, 4, 1, 1] 1)
           = (Inl (AssertionError ''invalid weight's shape''), PReLU_init 3 0.25,
              full [2, 4, 1, 1] 1))
   \<and> length (shape (full [5] 1)) < 2
   \<and> shape (full [1, 3, 1, 1] 0.25) \<noteq> [1]
   \<and> (\<forall>F. forward F (PReLU_init 3 0.25) (full [5] 1)
           = (Inl (IndexError ''tuple index out of range''), PReLU_init 3 0.25, full [5] 1))"
proof -
  have l: "legal_weight_shape (shape (full [1, 3, 1, 1] 0.25)) (shape (full [2, 3, 1, 1] 1))"
    by (simp add: legal_weight_shape_def full_def)
  have r: "1 < length (shape (full [2, 4, 1, 1] 1))"
    by (simp add: full_def)
  have nl: "\<not> legal_weight_shape (shape (full [1, 3, 1, 1] 0.25)) (shape (full [2, 4, 1, 1] 1))"
    by (simp add: legal_weight_shape_def full_def)
  have s: "length (shape (full [5] 1)) < 2"
    by (simp add: full_def)
  have t: "shape (full [1, 3, 1, 1] 0.25) \<noteq> [1]"
    by (simp add: full_def)
  have p: "PReLU_init 3 0.25 = PReLU 3 (full [1, 3, 1, 1] 0.25)"
    by (simp add: PReLU_init_def Parameter_def)
  from PReLU_forward_assertion_iff [of "full [1, 3, 1, 1] 0.25" "full [2, 3, 1, 1] 1" 3] l
  have a: "\<forall>F. fst (forward F (PReLU_init 3 0.25) (full [2, 3, 1, 1] 1))
           = fst (prelu F (full [2, 3, 1, 1] 1) (full [1, 3, 1, 1] 0.25))"
    unfolding p by blast
  from PReLU_forward_assertion_iff [of "full [1, 3, 1, 1] 0.25" "full [2, 4, 1, 1] 1" 3] r nl
  have b: "\<forall>F. forward F (PReLU_init 3 0.25) (full [2, 4, 1, 1] 1)
           = (Inl (AssertionError ''invalid weight's shape''), PReLU_init 3 0.25,
              full [2, 4, 1, 1] 1)"
    unfolding p by blast
  from PReLU_forward_assertion_iff [of "full [1, 3, 1, 1] 0.25" "full [5] 1" 3] s t
  have c: "\<forall>F. forward F (PReLU_init 3 0.25) (full [5] 1)
           = (Inl (IndexError ''tuple index out of range''), PReLU_init 3 0.25, full [5] 1)"
    unfolding p by blast
  from l a r nl b s t c show ?thesis by blast
qed

text \<open>
  C7. A PReLU constructed for three channels fails on a weight's shape that is illegal
  for its input in two ways. On an input of shape \<open>(2, 4, 5, 5)\<close> the assertion fails and
  the failure carries the message \<^verbatim>\<open>invalid weight's shape\<close>. On the one-dimensional input
  \<open>[-1.2, -3.7, 2.7]\<close> the second operand of the assertion reads \<^verbatim>\<open>inputs.shape[1]\<close>
  unguarded, and the failure is the index error \<^verbatim>\<open>tuple index out of range\<close>: the message
  of the assertion is lost.
\<close>

theorem PReLU_forward_message_lost:
  "fst (forward spec_functional (PReLU_init 3 0.25) (full [2, 4, 5, 5] 1))
       = Inl (AssertionError ''invalid weight's shape'')
   \<and> \<not> legal_weight_shape (shape (weight (PReLU_init 3 0.25)))
         (shape (array [-1.2, -3.7, 2.7]))
   \<and> fst (forward spec_functional (PReLU_init 3 0.25) (array [-1.2, -3.7, 2.7]))
       = Inl (IndexError ''tuple index out of range'')"
  by (simp add: PReLU_init_def Parameter_def full_def array_def legal_weight_shape_def
      assert_weight_shape_def tuple_getitem_def)

text \<open>
  C9. With a weight of shape \<open>(1,)\<close> the assertion holds for every input, whatever its
  rank, and the call returns what \<^verbatim>\<open>prelu\<close> returns: the input's dimension 1 is not
  read. With a weight of a four-dimensional shape the assertion reads the input's
  dimension 1: for an input with fewer than two dimensions the call ends in the index
  error of that read, leaving layer and input as they were, and the assertion holds only
  for inputs with at least two dimensions.
\<close>

theorem PReLU_forward_rank:
  "(shape w = [1] \<longrightarrow>
      assert_weight_shape w x = Inr () \<and> fst (forward F (PReLU n w) x) = fst (prelu F x w))
   \<and> (length (shape w) = 4 \<and> length (shape x) < 2 \<longrightarrow>
      forward F (PReLU n w) x = (Inl (IndexError ''tuple index out of range''), PReLU n w, x))
   \<and> (length (shape w) = 4 \<and> assert_weight_shape w x = Inr () \<longrightarrow> 2 \<le> length (shape x))"
proof (intro conjI impI)
  assume "shape w = [1]"
  then show "assert_weight_shape w x = Inr ()"
    by (simp add: assert_weight_shape_def)
next
  assume "shape w = [1]"
  then show "fst (forward F (PReLU n w) x) = fst (prelu F x w)"
    by (cases "prelu F x w") (simp add: assert_weight_shape_def)
next
  assume "length (shape w) = 4 \<and> length (shape x) < 2"
  then show "forward F (PReLU n w) x
             = (Inl (IndexError ''tuple index out of range''), PReLU n w, x)"
    by (auto simp add: assert_weight_shape_def tuple_getitem_def)
next
  assume "length (shape w) = 4 \<and> assert_weight_shape w x = Inr ()"
  then show "2 \<le> length (shape x)"
    by (auto simp add: assert_weight_shape_def tuple_getitem_def split: if_splits)
qed

theorem PReLU_forward_rank_witness:
  "(\<forall>F. fst (forward F (PReLU_init 1 0.25) \<lparr>shape = [], data = [-2]\<rparr>)
          = fst (prelu F \<lparr>shape = [], data = [-2]\<rparr> (array [0.25])))
   \<and> (\<forall>F. fst (forward F (PReLU_init 1 0.25) (array [-1.2, -3.7, 2.7]))
          = fst (prelu F (array [-1.2, -3.7, 2.7]) (array [0.25])))
   \<and> (\<forall>F. forward F (PReLU_init 3 0.25) (array [-1.2, -3.7, 2.7])
          = (Inl (IndexError ''tuple index out of range''), PReLU_init 3 0.25,
             array [-1.2, -3.7, 2.7]))
   \<and> assert_weight_shape (full [1, 3, 1, 1] 0.25) (full [2, 3] 1) = Inr ()
   \<and> 2 \<le> length (shape (full [2, 3] 1))"
proof -
  have p1: "PReLU_init 1 0.25 = PReLU 1 (array [0.25])"
    by (simp add: PReLU_init_def Parameter_def)
  have p3: "PReLU_init 3 0.25 = PReLU 3 (full [1, 3, 1, 1] 0.25)"
    by (simp add: PReLU_init_def Parameter_def)
  have s1: "shape (array [0.25]) = [1]"
    by (simp add: array_def)
  have s3: "length (shape (full [1, 3, 1, 1] 0.25)) = 4
            \<and> length (shape (array [-1.2, -3.7, 2.7])) < 2"
    by (simp add: array_def full_def)
  have ok: "assert_weight_shape (full [1, 3, 1, 1] 0.25) (full [2, 3] 1) = Inr ()"
    by (simp add: assert_weight_shape_def tuple_getitem_def full_def)
  have s4: "length (shape (full [1, 3, 1, 1] 0.25)) = 4"
    by (simp add: full_def)
  from PReLU_forward_rank [of "array [0.25]" "\<lparr>shape = [], data = [-2]\<rparr>" _ 1] s1
  have a: "\<forall>F. fst (forward F (PReLU_init 1 0.25) \<lparr>shape = [], data = [-2]\<rparr>)
          = fst (prelu F \<lparr>shape = [], data = [-2]\<rparr> (array [0.25]))"
    unfolding p1 by blast
  from PReLU_forward_rank [of "array [0.25]" "array [-1.2, -3.7, 2.7]" _ 1] s1
  have b: "\<forall>F. fst (forward F (PReLU_init 1 0.25) (array [-1.2, -3.7, 2.7]))
          = fst (prelu F (array [-1.2, -3.7, 2.7]) (array [0.25]))"
    unfolding p1 by blast
  from PReLU_forward_rank [of "full [1, 3, 1, 1] 0.25" "array [-1.2, -3.7, 2.7]" _ 3] s3
  have c: "\<forall>F. forward F (PReLU_init 3 0.25) (array [-1.2, -3.7, 2.7])
          = (Inl (IndexError ''tuple index out of range''), PReLU_init 3 0.25,
             array [-1.2, -3.7, 2.7])"
    unfolding p3 by blast
  from PReLU_forward_rank [of "full [1, 3, 1, 1] 0.25" "full [2, 3] 1"] s4 ok
  have d: "2 \<le> length (shape (full [2, 3] 1))"
    by blast
  from a b c ok d show ?thesis by blast
qed

section \<open>What a forward call leaves behind\<close>

text \<open>
  C8. No forward method writes to the layer or to the input: when the operators write
  to none of their arguments, layer and input are after every call of every layer what
  they were before it, and so is the weight of a PReLU layer. A PReLU call that fails on
  its weight's shape leaves layer and input unchanged whatever the operators are, for
  it invokes none of them.
\<close>

theorem forward_frame:
  "(no_write F \<longrightarrow> snd (forward F m x) = (m, x))
   \<and> (no_write F \<longrightarrow> weight (fst (snd (forward F (PReLU n w) x))) = w)
   \<and> (\<not> legal_weight_shape (shape w) (shape x) \<longrightarrow>
        snd (forward F (PReLU n w) x) = (PReLU n w, x))"
proof -
  have frame: "snd (forward F m x) = (m, x)" if nw: "no_write F" for m
  proof (cases m)
    case (Softmax ax)
    from nw have "snd (softmax F x ax) = x" by (simp add: no_write_def)
    with Softmax show ?thesis by (cases "softmax F x ax") simp
  next
    case Sigmoid
    from nw have "snd (sigmoid F x) = x" by (simp add: no_write_def)
    with Sigmoid show ?thesis by (cases "sigmoid F x") simp
  next
    case SiLU
    from nw have "snd (silu F x) = x" by (simp add: no_write_def)
    with SiLU show ?thesis by (cases "silu F x") simp
  next
    case GELU
    from nw have "snd (gelu F x) = x" by (simp add: no_write_def)
    with GELU show ?thesis by (cases "gelu F x") simp
  next
    case ReLU
    from nw have "snd (relu F x) = x" by (simp add: no_write_def)
    with ReLU show ?thesis by (cases "relu F x") simp
  next
    case (PReLU k v)
    from nw have "snd (prelu F x v) = (x, v)" by (simp add: no_write_def)
    with PReLU show ?thesis
      by (cases "prelu F x v") (simp split: sum.splits)
  next
    case (LeakyReLU s)
    from nw have "snd (leaky_relu F x s) = x" by (simp add: no_write_def)
    with LeakyReLU show ?thesis by (cases "leaky_relu F x s") simp
  next
    case (ELU a)
    from nw have "snd (elu F x a) = x" by (simp add: no_write_def)
    with ELU show ?thesis by (cases "elu F x a") simp
  qed
  have fail: "snd (forward F (PReLU n w) x) = (PReLU n w, x)"
    if "\<not> legal_weight_shape (shape w) (shape x)"
    using that by (simp add: assert_weight_shape_cases)
  from frame [of "PReLU n w"] have "weight (fst (snd (forward F (PReLU n w) x))) = w"
    if "no_write F" using that by simp
  with frame fail show ?thesis by blast
qed

theorem forward_frame_witness:
  "no_write spec_functional
   \<and> snd (forward spec_functional (PReLU_init 1 0.25) (array [-1.2, -3.7, 2.7]))
       = (PReLU_init 1 0.25, array [-1.2, -3.7, 2.7])
   \<and> weight (fst (snd (forward spec_functional (PReLU 1 (array [0.25]))
                         (array [-1.2, -3.7, 2.7]))))
       = array [0.25]
   \<and> \<not> legal_weight_shape (shape (full [1, 3, 1, 1] 0.25)) (shape (array [-1.2, -3.7, 2.7]))
   \<and> (\<forall>F. snd (forward F (PReLU 3 (full [1, 3, 1, 1] 0.25)) (array [-1.2, -3.7, 2.7]))
       = (PReLU 3 (full [1, 3, 1, 1] 0.25), array [-1.2, -3.7, 2.7]))"
proof -
  have nw: "no_write spec_functional"
    by (simp add: no_write_def spec_functional_def)
  have nl: "\<not> legal_weight_shape (shape (full [1, 3, 1, 1] 0.25))
              (shape (array [-1.2, -3.7, 2.7]))"
    by (simp add: legal_weight_shape_def full_def array_def)
  from forward_frame [of spec_functional "PReLU_init 1 0.25" "array [-1.2, -3.7, 2.7]"] nw
  have a: "snd (forward spec_functional (PReLU_init 1 0.25) (array [-1.2, -3.7, 2.7]))
       = (PReLU_init 1 0.25, array [-1.2, -3.7, 2.7])"
    by blast
  from forward_frame [of spec_functional _ "array [-1.2, -3.7, 2.7]" 1 "array [0.25]"] nw
  have b: "weight (fst (snd (forward spec_functional (PReLU 1 (array [0.25]))
                              (array [-1.2, -3.7, 2.7]))))
       = array [0.25]"
    by blast
  from forward_frame [of _ _ "array [-1.2, -3.7, 2.7]" 3 "full [1, 3, 1, 1] 0.25"] nl
  have c: "\<forall>F. snd (forward F (PReLU 3 (full [1, 3, 1, 1] 0.25)) (array [-1.2, -3.7, 2.7]))
       = (PReLU 3 (full [1, 3, 1, 1] 0.25), array [-1.2, -3.7, 2.7])"
    by blast
  from nw a b nl c show ?thesis by blast
qed

section \<open>The element-wise layers on the documented operators\<close>

text \<open>
  C4. For every slope and every input, the LeakyReLU layer constructed with that slope
  returns a tensor of the input's shape whose element is \<open>x\<close> where the input's element
  \<open>x\<close> is at least 0 and \<open>slope * x\<close> where it is negative.
\<close>

theorem LeakyReLU_forward_piecewise:
  "fst (forward spec_functional (LeakyReLU_init slope) x)
     = Inr (x\<lparr>data := map (\<lambda>v. if 0 \<le> v then v else slope * v) (data x)\<rparr>)"
  by (simp add: LeakyReLU_init_def spec_functional_def spec_leaky_relu_def elementwise_def
      max_def min_def)

theorem LeakyReLU_forward_piecewise_witness:
  "fst (forward spec_functional (LeakyReLU_init 0.01) (array [-8, -12, 6, 10]))
     = Inr (array [-0.08, -0.12, 6, 10])"
  using LeakyReLU_forward_piecewise [of "0.01" "array [-8, -12, 6, 10]"]
  by (simp add: array_def)

text \<open>
  C5. For every \<open>alpha\<close> and every input, the ELU layer constructed with that \<open>alpha\<close>
  returns a tensor of the input's shape whose element is \<open>x\<close> where the input's element
  \<open>x\<close> is positive and \<open>alpha * (exp x - 1)\<close> where it is at most 0.
\<close>

theorem ELU_forward_piecewise:
  "fst (forward spec_functional (ELU_init a) x)
     = Inr (x\<lparr>data := map (\<lambda>v. if 0 < v then v else a * (exp v - 1)) (data x)\<rparr>)"
  by (simp add: ELU_init_def spec_functional_def spec_elu_def elementwise_def)

theorem ELU_forward_piecewise_witness:
  "fst (forward spec_functional (ELU_init 1) (array [-2, -1, 0, 1, 2]))
     = Inr (array [exp (-2) - 1, exp (-1) - 1, 0, 1, 2])"
  using ELU_forward_piecewise [of 1 "array [-2, -1, 0, 1, 2]"]
  by (simp add: array_def)

text \<open>
  C6. The input \<open>[-1.2, -3.7, 2.7]\<close> through a PReLU constructed with the default
  arguments \<open>num_parameters = 1\<close> and \<open>init = 0.25\<close> succeeds and gives
  \<open>[-0.3, -0.925, 2.7]\<close>.
\<close>

theorem PReLU_default_example:
  "fst (forward spec_functional (PReLU_init 1 0.25) (array [-1.2, -3.7, 2.7]))
     = Inr (array [-0.3, -0.925, 2.7])"
  by (simp add: PReLU_init_def Parameter_def array_def assert_weight_shape_def
      spec_functional_def spec_prelu_def elementwise_def)

section \<open>Softmax\<close>

subsection \<open>Positions along an axis\<close>

lemma prod_list_take_nth_drop:
  assumes "k < length (s :: nat list)"
  shows "prod_list s = prod_list (take k s) * (s ! k * prod_list (drop (Suc k) s))"
proof -
  have "prod_list s = prod_list (take k s @ s ! k # drop (Suc k) s)"
    using id_take_nth_drop [OF assms] by simp
  then show ?thesis by simp
qed

lemma div_mult_add_less:
  assumes "r < (m::nat)"
  shows "(q * m + r) div m = q"
proof -
  from assms have "m \<noteq> 0" by simp
  then have "(q * m + r) div m = q + r div m"
    by (rule div_mult_self3)
  with assms show ?thesis by simp
qed

lemma slice_offset_less:
  assumes "j < (n::nat)"
  shows "j * inner + i mod inner < n * inner \<or> inner = 0"
proof (cases "inner = 0")
  case True
  then show ?thesis by simp
next
  case False
  then have "i mod inner < inner" by simp
  then have "j * inner + i mod inner < Suc j * inner" by simp
  also have "\<dots> \<le> n * inner"
    using assms by (intro mult_le_mono1) simp
  finally show ?thesis by simp
qed

text \<open>A slice stays inside the tensor.\<close>

lemma slice_index_less:
  assumes "i < outer * (n * inner)" and "j < n"
  shows "slice_index n inner i j < outer * (n * inner)"
proof -
  let ?m = "n * inner"
  from assms(1) have m: "0 < ?m" by (cases "?m = 0") auto
  then have inner: "inner \<noteq> 0" by simp
  have q: "i div ?m < outer"
    using assms(1) m by (simp add: less_mult_imp_div_less mult.commute)
  from slice_offset_less [OF assms(2), of inner i] inner
  have r: "j * inner + i mod inner < ?m" by simp
  have "slice_index n inner i j < i div ?m * ?m + ?m"
    using r by (simp add: slice_index_def)
  also have "\<dots> = Suc (i div ?m) * ?m" by simp
  also have "\<dots> \<le> outer * ?m"
    using q by (intro mult_le_mono1) simp
  finally show ?thesis .
qed

text \<open>The slice through a position of the slice through \<open>i\<close> is the slice through \<open>i\<close>.\<close>

lemma slice_index_same_slice:
  assumes "j < n" and "0 < inner"
  shows "slice_index n inner (slice_index n inner i j) j' = slice_index n inner i j'"
proof -
  let ?m = "n * inner"
  from slice_offset_less [OF assms(1), of inner i] assms(2)
  have r: "j * inner + i mod inner < ?m" by simp
  have "slice_index n inner i j = i div ?m * ?m + (j * inner + i mod inner)"
    by (simp add: slice_index_def)
  then have d: "slice_index n inner i j div ?m = i div ?m"
    using r by (simp only: div_mult_add_less)
  have "slice_index n inner i j = inner * (i div ?m * n + j) + i mod inner"
    by (simp add: slice_index_def algebra_simps)
  then have md: "slice_index n inner i j mod inner = i mod inner"
    by simp
  show ?thesis
    by (simp add: slice_index_def [of n inner "slice_index n inner i j"] d md)
       (simp add: slice_index_def)
qed

text \<open>Every position lies on the slice through it, at its own coordinate.\<close>

lemma slice_index_self:
  assumes "0 < inner"
  shows "slice_index n inner i (i mod (n * inner) div inner) = i"
proof -
  let ?m = "n * inner"
  have "i mod ?m mod inner = i mod inner"
    by (rule mod_mod_cancel) simp
  then have "i mod ?m div inner * inner + i mod inner = i mod ?m"
    by (metis div_mult_mod_eq)
  then have "i div ?m * ?m + (i mod ?m div inner * inner + i mod inner) = i"
    by (simp only: div_mult_mod_eq)
  then show ?thesis
    by (simp add: slice_index_def add.assoc)
qed

lemma slice_coordinate_less:
  assumes "0 < (n::nat)" and "0 < inner"
  shows "i mod (n * inner) div inner < n"
proof -
  have "i mod (n * inner) < n * inner"
    using assms by simp
  then show ?thesis
    using assms by (simp add: less_mult_imp_div_less mult.commute)
qed

lemma along_axis_sum:
  "(\<Sum>j\<leftarrow>along_axis s k i. f j)
     = (\<Sum>j<s ! k. f (slice_index (s ! k) (prod_list (drop (Suc k) s)) i j))"
proof -
  have "(\<Sum>j\<leftarrow>along_axis s k i. f j)
        = (\<Sum>j\<leftarrow>[0..<s ! k]. f (slice_index (s ! k) (prod_list (drop (Suc k) s)) i j))"
    by (simp add: along_axis_def comp_def)
  also have "\<dots> = (\<Sum>j\<in>{0..<s ! k}. f (slice_index (s ! k) (prod_list (drop (Suc k) s)) i j))"
    by (simp add: interv_sum_list_conv_sum_set_nat)
  finally show ?thesis by (simp add: lessThan_atLeast0)
qed

subsection \<open>The denominator\<close>

lemma slice_sum_pos:
  assumes "0 < n"
  shows "0 < slice_sum n inner xs i"
  unfolding slice_sum_def using assms by (intro sum_pos) auto

lemma slice_sum_same_slice:
  assumes "j < n" and "0 < inner"
  shows "slice_sum n inner xs (slice_index n inner i j) = slice_sum n inner xs i"
  by (simp add: slice_sum_def slice_index_same_slice [OF assms])

lemma exp_le_slice_sum:
  assumes "0 < n" and "0 < inner"
  shows "exp (xs ! i) \<le> slice_sum n inner xs i"
proof -
  let ?j = "i mod (n * inner) div inner"
  have j: "?j \<in> {..<n}"
    using slice_coordinate_less [OF assms] by simp
  have "exp (xs ! slice_index n inner i ?j) \<le> slice_sum n inner xs i"
    unfolding slice_sum_def
    by (rule member_le_sum [OF j]) simp_all
  then show ?thesis
    by (simp add: slice_index_self [OF assms(2)])
qed

lemma softmax_slice_sum_one:
  assumes "0 < n"
  shows "(\<Sum>j<n. exp (xs ! slice_index n inner i j) / slice_sum n inner xs i) = 1"
proof -
  have "(\<Sum>j<n. exp (xs ! slice_index n inner i j) / slice_sum n inner xs i)
        = (\<Sum>j<n. exp (xs ! slice_index n inner i j)) / slice_sum n inner xs i"
    by (simp only: sum_divide_distrib)
  also have "\<dots> = slice_sum n inner xs i / slice_sum n inner xs i"
    by (simp only: slice_sum_def)
  also have "\<dots> = 1"
    using slice_sum_pos [OF assms, of inner xs i] by simp
  finally show ?thesis .
qed

subsection \<open>The layer\<close>

text \<open>
  C3. For every input tensor of real numbers, with as many elements as its shape asks
  for, and every axis \<open>k\<close> that the input has, the forward call of the Softmax layer of
  axis \<open>k\<close> succeeds; its output has the shape of the input; every element of the output
  lies in \<open>[0, 1]\<close>; and at every position of the output the elements of the slice
  along axis \<open>k\<close> through that position sum to 1.
\<close>

theorem Softmax_forward_normalised:
  assumes wf: "well_formed x" and k: "k < length (shape x)"
  shows "\<exists>y. fst (forward spec_functional (Softmax_init (Some k)) x) = Inr y
           \<and> shape y = shape x \<and> well_formed y
           \<and> (\<forall>i<length (data y).
                 0 \<le> data y ! i \<and> data y ! i \<le> 1
                 \<and> (\<Sum>j\<leftarrow>along_axis (shape x) k i. data y ! j) = 1)"
proof -
  let ?n = "shape x ! k"
  let ?inner = "prod_list (drop (Suc k) (shape x))"
  let ?outer = "prod_list (take k (shape x))"
  let ?xs = "data x"
  let ?S = "slice_sum ?n ?inner ?xs"
  let ?ys = "map (\<lambda>i. exp (?xs ! i) / ?S i) [0..<length ?xs]"
  let ?y = "x\<lparr>data := ?ys\<rparr>"
  have len: "length ?xs = ?outer * (?n * ?inner)"
    using wf prod_list_take_nth_drop [OF k] by (simp add: well_formed_def)
  have run: "fst (forward spec_functional (Softmax_init (Some k)) x) = Inr ?y"
    using k
    by (simp add: Softmax_init_def spec_functional_def spec_softmax_def along_axis_sum
        slice_sum_def)
  have wfy: "well_formed ?y"
    using wf by (simp add: well_formed_def)
  have elems: "0 \<le> ?ys ! i \<and> ?ys ! i \<le> 1
               \<and> (\<Sum>j\<leftarrow>along_axis (shape x) k i. ?ys ! j) = 1"
    if i: "i < length ?xs" for i
  proof -
    from i len have "0 < ?n * ?inner"
      by (cases "?n * ?inner = 0") auto
    then have n: "0 < ?n" and inner: "0 < ?inner" by simp_all
    have yi: "?ys ! i = exp (?xs ! i) / ?S i"
      using i by simp
    have lo: "0 \<le> ?ys ! i"
      using slice_sum_pos [OF n, of ?inner ?xs i] by (simp add: yi)
    have hi: "?ys ! i \<le> 1"
      using slice_sum_pos [OF n, of ?inner ?xs i] exp_le_slice_sum [OF n inner, of ?xs i]
      by (simp add: yi)
    have "?ys ! slice_index ?n ?inner i j = exp (?xs ! slice_index ?n ?inner i j) / ?S i"
      if j: "j < ?n" for j
    proof -
      have "slice_index ?n ?inner i j < length ?xs"
        using slice_index_less [of i ?outer ?n ?inner j] i j len by simp
      then have "?ys ! slice_index ?n ?inner i j
                 = exp (?xs ! slice_index ?n ?inner i j) / ?S (slice_index ?n ?inner i j)"
        by simp
      then show ?thesis
        by (simp only: slice_sum_same_slice [OF j inner])
    qed
    then have "(\<Sum>j<?n. ?ys ! slice_index ?n ?inner i j)
               = (\<Sum>j<?n. exp (?xs ! slice_index ?n ?inner i j) / ?S i)"
      by (intro sum.cong) simp_all
    also have "\<dots> = 1"
      by (rule softmax_slice_sum_one [OF n])
    finally have "(\<Sum>j\<leftarrow>along_axis (shape x) k i. ?ys ! j) = 1"
      by (simp only: along_axis_sum)
    with lo hi show ?thesis by blast
  qed
  have "shape ?y = shape x" by simp
  moreover have "\<forall>i<length (data ?y).
                 0 \<le> data ?y ! i \<and> data ?y ! i \<le> 1
                 \<and> (\<Sum>j\<leftarrow>along_axis (shape x) k i. data ?y ! j) = 1"
    using elems by simp
  ultimately show ?thesis
    using run wfy by blast
qed

theorem Softmax_forward_normalised_witness:
  "well_formed \<lparr>shape = [2, 2], data = [0, 1, 2, 3]\<rparr>
   \<and> (0::nat) < length (shape \<lparr>shape = [2, 2], data = [0, 1, 2, 3]\<rparr>)
   \<and> along_axis [2, 2] 0 1 = [1, 3]
   \<and> (\<exists>y. fst (forward spec_functional (Softmax_init (Some 0))
                  \<lparr>shape = [2, 2], data = [0, 1, 2, 3]\<rparr>) = Inr y
          \<and> shape y = [2, 2] \<and> length (data y) = 4
          \<and> 0 \<le> data y ! 1 \<and> data y ! 1 \<le> 1
          \<and> data y ! 1 + data y ! 3 = 1)"
proof -
  let ?x = "\<lparr>shape = [2, 2], data = [0, 1, 2, 3]\<rparr>"
  have wf: "well_formed ?x"
    by (simp add: well_formed_def)
  have k: "0 < length (shape ?x)"
    by simp
  have along: "along_axis [2, 2] 0 1 = [1, 3]"
    by (simp add: along_axis_def slice_index_def upt_rec)
  from Softmax_forward_normalised [OF wf k]
  obtain y where run: "fst (forward spec_functional (Softmax_init (Some 0)) ?x) = Inr y"
    and sh: "shape y = shape ?x" and wfy: "well_formed y"
    and el: "\<forall>i<length (data y). 0 \<le> data y ! i \<and> data y ! i \<le> 1
                \<and> (\<Sum>j\<leftarrow>along_axis (shape ?x) 0 i. data y ! j) = 1"
    by blast
  from sh wfy have len: "length (data y) = 4"
    by (simp add: well_formed_def)
  then have "1 < length (data y)" by simp
  with el have "0 \<le> data y ! 1 \<and> data y ! 1 \<le> 1
                \<and> (\<Sum>j\<leftarrow>along_axis (shape ?x) 0 1. data y ! j) = 1"
    by blast
  with along have "0 \<le> data y ! 1 \<and> data y ! 1 \<le> 1 \<and> data y ! 1 + data y ! 3 = 1"
    by simp
  with wf k along run sh len show ?thesis by auto
qed

end
